theory Spec2Isabelle
  imports Main "HOL-Library.Sublist"
begin

unbundle bit_operations_syntax

section \<open>Exceptions, results and the GPIO value files\<close>

text \<open>
  The exceptions that can leave the functions modelled here. A function that touches the
  hardware takes the state of the GPIO files and returns its outcome together with the
  state it leaves behind, so that what was written before an exception stays visible.
\<close>

datatype py_error = ValueError | OSError | AttributeError | IndexError

type_synonym 'a result = "py_error + 'a"

text \<open>
  The backing medium is the file \<^verbatim>\<open>/sys/class/gpio/gpio{channel}/value\<close> of each channel.
  \<open>value_file st ch\<close> is the content of that file, \<open>None\<close> when it cannot be opened.
  A write replaces the content; \<open>writes\<close> records every write in order (channel and bytes).
\<close>

record hw =
  value_file :: "int \<rightharpoonup> string"
  writes :: "(int \<times> string) list"

definition and_then :: "unit result \<times> hw \<Rightarrow> (hw \<Rightarrow> unit result \<times> hw) \<Rightarrow> unit result \<times> hw" where
  "and_then r f = (case r of (Inl e, st) \<Rightarrow> (Inl e, st) | (Inr _, st) \<Rightarrow> f st)"

section \<open>Bytes helpers of the Python runtime\<close>

text \<open>ASCII whitespace as \<^verbatim>\<open>bytes.split()\<close> and \<^verbatim>\<open>bytes.rstrip()\<close> see it.\<close>

definition is_space :: "char \<Rightarrow> bool" where
  "is_space c \<longleftrightarrow> c \<in> set [CHR 0x20, CHR 0x09, CHR 0x0A, CHR 0x0B, CHR 0x0C, CHR 0x0D]"

definition rstrip :: "string \<Rightarrow> string" where
  "rstrip s = rev (dropWhile is_space (rev s))"

text \<open>\<^verbatim>\<open>bytes.split()\<close>: the maximal runs of non-whitespace bytes, in order.\<close>

fun split_aux :: "string \<Rightarrow> string \<Rightarrow> string list" where
  "split_aux cur [] = (if cur = [] then [] else [cur])"
| "split_aux cur (c # cs) =
     (if is_space c then (if cur = [] then split_aux [] cs else cur # split_aux [] cs)
      else split_aux (cur @ [c]) cs)"

definition split_ws :: "string \<Rightarrow> string list" where
  "split_ws s = split_aux [] s"

text \<open>
  \<^verbatim>\<open>int(b"0x" + data, base=16)\<close>. After the prefix one underscore may follow; then come
  hexadecimal digits, single underscores allowed between them, at least one digit, no
  underscore at the end, and nothing else. There is no limit on the number of digits.
\<close>

definition hex_digit :: "char \<Rightarrow> nat option" where
  "hex_digit c =
     (let n = (of_char c :: nat) in
      if 48 \<le> n \<and> n \<le> 57 then Some (n - 48)
      else if 97 \<le> n \<and> n \<le> 102 then Some (n - 87)
      else if 65 \<le> n \<and> n \<le> 70 then Some (n - 55)
      else None)"

fun hex_digits :: "bool \<Rightarrow> int \<Rightarrow> string \<Rightarrow> int option" where
  "hex_digits prev_us acc [] = (if prev_us then None else Some acc)"
| "hex_digits prev_us acc (c # cs) =
     (if c = CHR ''_'' then (if prev_us then None else hex_digits True acc cs)
      else case hex_digit c of
             None \<Rightarrow> None
           | Some d \<Rightarrow> hex_digits False (16 * acc + int d) cs)"

definition py_int_hex :: "string \<Rightarrow> int option" where
  "py_int_hex data =
     (let s = (case data of c # r \<Rightarrow> if c = CHR ''_'' then r else data | [] \<Rightarrow> data) in
      case s of
        [] \<Rightarrow> None
      | c # r \<Rightarrow> if c = CHR ''_'' then None else hex_digits False 0 s)"

section \<open>Relay\<close>

datatype Value = ON | OFF

datatype relay = Relay (relay_channel: int)

definition ON_VALUE :: string where "ON_VALUE = ''0''"
definition OFF_VALUE :: string where "OFF_VALUE = ''1''"

definition raw_value_to_value :: "string \<Rightarrow> Value result" where
  "raw_value_to_value raw_value =
     (if rstrip raw_value = ON_VALUE then Inr ON
      else if rstrip raw_value = OFF_VALUE then Inr OFF
      else Inl ValueError)"

definition value_to_raw_value :: "Value \<Rightarrow> string" where
  "value_to_raw_value v = (case v of ON \<Rightarrow> ON_VALUE | OFF \<Rightarrow> OFF_VALUE)"

text \<open>The property \<^verbatim>\<open>Relay.value\<close>: every read opens the value file and decodes it.\<close>

definition value_get :: "relay \<Rightarrow> hw \<Rightarrow> Value result" where
  "value_get r st =
     (case value_file st (relay_channel r) of
        None \<Rightarrow> Inl OSError
      | Some raw \<Rightarrow> raw_value_to_value raw)"

text \<open>\<^verbatim>\<open>_set_raw_value\<close> reads the previous content first, then writes, and returns the
  previous content.\<close>

definition set_raw_value :: "relay \<Rightarrow> string \<Rightarrow> hw \<Rightarrow> string result \<times> hw" where
  "set_raw_value r v st =
     (case value_file st (relay_channel r) of
        None \<Rightarrow> (Inl OSError, st)
      | Some previous_value \<Rightarrow>
          (Inr previous_value,
           st\<lparr>value_file := (value_file st)(relay_channel r \<mapsto> v),
              writes := writes st @ [(relay_channel r, v)]\<rparr>))"

definition value_set :: "relay \<Rightarrow> Value \<Rightarrow> hw \<Rightarrow> unit result \<times> hw" where
  "value_set r v st =
     (case set_raw_value r (value_to_raw_value v) st of
        (Inl e, st') \<Rightarrow> (Inl e, st')
      | (Inr _, st') \<Rightarrow> (Inr (), st'))"

definition toggle :: "relay \<Rightarrow> hw \<Rightarrow> Value result \<times> hw" where
  "toggle r st =
     (case value_get r st of
        Inl e \<Rightarrow> (Inl e, st)
      | Inr cur \<Rightarrow>
          (case value_set r (if cur = ON then OFF else ON) st of
             (Inl e, st') \<Rightarrow> (Inl e, st')
           | (Inr _, st') \<Rightarrow> (value_get r st', st')))"

section \<open>MIDIRelayController\<close>

record controller =
  relays :: "relay list"
  port :: string
  base_value :: int
  channel :: int

definition CONTROL_MASK :: int where "CONTROL_MASK = 0xF0"
definition CONTROL_NOTE_OFF :: int where "CONTROL_NOTE_OFF = 0x80"
definition CONTROL_NOTE_ON :: int where "CONTROL_NOTE_ON = 0x90"
definition CHANNEL_MASK :: int where "CHANNEL_MASK = 0x0F"

definition NOTE_TO_VALUE :: "int \<rightharpoonup> int" where
  "NOTE_TO_VALUE = map_of [(60, 1), (61, 2), (62, 3), (63, 4), (64, 5), (65, 6), (66, 7)]"

text \<open>\<^verbatim>\<open>self.relays[i].value = v\<close>; indexing past the end of the list raises.\<close>

definition assign_relay :: "controller \<Rightarrow> nat \<Rightarrow> Value \<Rightarrow> hw \<Rightarrow> unit result \<times> hw" where
  "assign_relay c i v st =
     (if i < length (relays c) then value_set (relays c ! i) v st else (Inl IndexError, st))"

definition set_value :: "controller \<Rightarrow> int \<Rightarrow> hw \<Rightarrow> unit result \<times> hw" where
  "set_value c v st =
     (if v < 0 \<or> v > 7 then (Inl ValueError, st)
      else
        and_then (assign_relay c 0 (if v AND 0x01 \<noteq> 0 then ON else OFF) st) (\<lambda>st.
        and_then (assign_relay c 1 (if v AND 0x02 \<noteq> 0 then ON else OFF) st) (\<lambda>st.
        assign_relay c 2 (if v AND 0x04 \<noteq> 0 then ON else OFF) st)))"

definition set_note_on :: "controller \<Rightarrow> int \<Rightarrow> int list \<Rightarrow> hw \<Rightarrow> unit result \<times> hw" where
  "set_note_on c chan vals st =
     (if chan \<noteq> channel c then (Inr (), st)
      else case vals of
        [] \<Rightarrow> (Inr (), st)
      | note # _ \<Rightarrow>
          set_value c (case NOTE_TO_VALUE note of None \<Rightarrow> base_value c | Some v \<Rightarrow> v) st)"

text \<open>
  The list comprehension of \<^verbatim>\<open>_callback\<close>: every token is converted, and the first one
  that \<^verbatim>\<open>int\<close> rejects raises the \<^verbatim>\<open>ValueError\<close> that the callback catches.
\<close>

fun decode_tokens :: "string list \<Rightarrow> int list option" where
  "decode_tokens [] = Some []"
| "decode_tokens (t # ts) =
     (case py_int_hex t of
        None \<Rightarrow> None
      | Some v \<Rightarrow> (case decode_tokens ts of None \<Rightarrow> None | Some vs \<Rightarrow> Some (v # vs)))"

definition midi_hex :: "string \<Rightarrow> int list option" where
  "midi_hex byte_buffer = decode_tokens (split_ws byte_buffer)"

text \<open>
  \<^verbatim>\<open>_callback\<close>. The buffer is the concatenation of the one-byte reads. In the note-off
  branch the source evaluates \<^verbatim>\<open>_logger.debug\<close>, an attribute of the module-level
  function \<^verbatim>\<open>_logger\<close> rather than of the logger it returns: the lookup raises
  \<^verbatim>\<open>AttributeError\<close>, which nothing catches.
\<close>

definition callback :: "controller \<Rightarrow> string \<Rightarrow> hw \<Rightarrow> unit result \<times> hw" where
  "callback c byte_buffer st =
     (if byte_buffer = [] then (Inr (), st)
      else case midi_hex byte_buffer of
        None \<Rightarrow> (Inr (), st)
      | Some [] \<Rightarrow> (Inr (), st)
      | Some (control # vals) \<Rightarrow>
          if control AND CONTROL_MASK = CONTROL_NOTE_OFF then (Inl AttributeError, st)
          else if control AND CONTROL_MASK = CONTROL_NOTE_ON
          then set_note_on c ((control AND CHANNEL_MASK) + 1) vals st
          else (Inr (), st))"

text \<open>
  The \<^verbatim>\<open>while True\<close> loop of \<^verbatim>\<open>run_forever\<close> over the bytes still to come from the capture
  process. At the end of the stream \<^verbatim>\<open>read(1)\<close> returns \<^verbatim>\<open>b""\<close>; \<open>k\<close> counts the reads
  that see it while \<^verbatim>\<open>poll()\<close> is still \<^verbatim>\<open>None\<close> (they only log a warning).
\<close>

fun loop :: "controller \<Rightarrow> string \<Rightarrow> nat \<Rightarrow> string \<Rightarrow> hw \<Rightarrow> unit result \<times> hw" where
  "loop c [] 0 buffer st = (Inr (), st)"
| "loop c [] (Suc k) buffer st = loop c [] k buffer st"
| "loop c (next_byte # rest) k buffer st =
     (if next_byte = CHR 0x0A then loop c rest k [] st
      else case callback c (buffer @ [next_byte]) st of
             (Inl e, st') \<Rightarrow> (Inl e, st')
           | (Inr _, st') \<Rightarrow> loop c rest k (buffer @ [next_byte]) st')"

text \<open>
  \<^verbatim>\<open>process.stdout.readline()\<close>: what is left of the stream after its first line (the
  whole stream is consumed when it has no newline).
\<close>

definition after_readline :: "string \<Rightarrow> string" where
  "after_readline inp = drop 1 (dropWhile (\<lambda>b. b \<noteq> CHR 0x0A) inp)"

text \<open>
  \<^verbatim>\<open>run_forever\<close> on the bytes \<open>inp\<close> that the capture process prints before it ends. An
  exception raised inside the \<^verbatim>\<open>with\<close> block kills the process and leaves \<^verbatim>\<open>run_forever\<close>.
\<close>

definition run_forever :: "controller \<Rightarrow> string \<Rightarrow> nat \<Rightarrow> hw \<Rightarrow> unit result \<times> hw" where
  "run_forever c inp k st =
     (case set_value c (base_value c) st of
        (Inl e, st') \<Rightarrow> (Inl e, st')
      | (Inr _, st') \<Rightarrow> loop c (after_readline inp) k [] st')"

section \<open>A concrete configuration\<close>

text \<open>
  The controller as \<^verbatim>\<open>MIDIRelayController(port="hw:1,0,0")\<close> builds it: relays on the GPIO
  pins 26, 20 and 21, base value 0, MIDI channel 4; and the GPIO files as they are once
  the three relays are set up: every value file reads \<^verbatim>\<open>1\<close> and a newline (relay off).
\<close>

definition RELAY_1_GPIO_PIN :: int where "RELAY_1_GPIO_PIN = 26"
definition RELAY_2_GPIO_PIN :: int where "RELAY_2_GPIO_PIN = 20"
definition RELAY_3_GPIO_PIN :: int where "RELAY_3_GPIO_PIN = 21"

definition example_controller :: controller where
  "example_controller =
     \<lparr>relays = [Relay RELAY_1_GPIO_PIN, Relay RELAY_2_GPIO_PIN, Relay RELAY_3_GPIO_PIN],
      port = ''hw:1,0,0'', base_value = 0, channel = 4\<rparr>"

definition all_off :: hw where
  "all_off =
     \<lparr>value_file = [26 \<mapsto> [CHR ''1'', CHR 0x0A], 20 \<mapsto> [CHR ''1'', CHR 0x0A],
                    21 \<mapsto> [CHR ''1'', CHR 0x0A]],
      writes = []\<rparr>"

section \<open>Relay values on the medium\<close>

lemmas pin_defs = RELAY_1_GPIO_PIN_def RELAY_2_GPIO_PIN_def RELAY_3_GPIO_PIN_def

lemmas eval_defs = midi_hex_def split_ws_def is_space_def py_int_hex_def hex_digit_def
  CONTROL_MASK_def CONTROL_NOTE_OFF_def CONTROL_NOTE_ON_def CHANNEL_MASK_def NOTE_TO_VALUE_def

lemma rstrip_raw [simp]:
  "rstrip ON_VALUE = ON_VALUE" "rstrip OFF_VALUE = OFF_VALUE"
  "ON_VALUE \<noteq> OFF_VALUE" "OFF_VALUE \<noteq> ON_VALUE"
  by (simp_all add: rstrip_def ON_VALUE_def OFF_VALUE_def is_space_def)

lemma raw_roundtrip [simp]: "raw_value_to_value (value_to_raw_value v) = Inr v"
  by (cases v) (simp_all add: raw_value_to_value_def value_to_raw_value_def)

lemma value_set_ok:
  "value_file st (relay_channel r) \<noteq> None \<Longrightarrow>
   value_set r v st =
     (Inr (), st\<lparr>value_file := (value_file st)(relay_channel r \<mapsto> value_to_raw_value v),
                 writes := writes st @ [(relay_channel r, value_to_raw_value v)]\<rparr>)"
  by (auto simp: value_set_def set_raw_value_def)

lemma value_get_upd_same [simp]:
  "value_get r (st\<lparr>value_file := (value_file st)(relay_channel r \<mapsto> value_to_raw_value v),
                  writes := w\<rparr>) = Inr v"
  by (simp add: value_get_def)

lemma value_get_upd_other [simp]:
  "relay_channel r' \<noteq> relay_channel r \<Longrightarrow>
   value_get r' (st\<lparr>value_file := (value_file st)(relay_channel r \<mapsto> x), writes := w\<rparr>)
     = value_get r' st"
  by (simp add: value_get_def)

lemma bits_of_bitmask:
  assumes "0 \<le> (v::int)" "v \<le> 7"
  shows "(v AND 0x01 \<noteq> 0) = bit v 0" "(v AND 0x02 \<noteq> 0) = bit v 1"
    "(v AND 0x04 \<noteq> 0) = bit v 2"
    "(if bit v 0 then 1 else 0) + 2 * (if bit v 1 then 1 else 0)
       + 4 * (if bit v 2 then 1 else 0) = v"
proof -
  from assms have "v = 0 \<or> v = 1 \<or> v = 2 \<or> v = 3 \<or> v = 4 \<or> v = 5 \<or> v = 6 \<or> v = 7"
    by arith
  then show "(v AND 0x01 \<noteq> 0) = bit v 0" "(v AND 0x02 \<noteq> 0) = bit v 1"
    "(v AND 0x04 \<noteq> 0) = bit v 2"
    "(if bit v 0 then 1 else 0) + 2 * (if bit v 1 then 1 else 0)
       + 4 * (if bit v 2 then 1 else 0) = v"
    by (auto simp: bit_iff_odd)
qed

lemma set_value_reads:
  assumes rs: "relays c = [r0, r1, r2]"
    and d: "distinct [relay_channel r0, relay_channel r1, relay_channel r2]"
    and f: "value_file st (relay_channel r0) \<noteq> None"
           "value_file st (relay_channel r1) \<noteq> None"
           "value_file st (relay_channel r2) \<noteq> None"
    and v: "0 \<le> v" "v \<le> 7"
  shows "\<exists>st'. set_value c v st = (Inr (), st')
           \<and> value_get r0 st' = Inr (if bit v 0 then ON else OFF)
           \<and> value_get r1 st' = Inr (if bit v 1 then ON else OFF)
           \<and> value_get r2 st' = Inr (if bit v 2 then ON else OFF)"
  using d f v
  by (simp add: set_value_def assign_relay_def rs and_then_def value_set_ok
      bits_of_bitmask[OF v] value_get_def)

section \<open>Applying a bitmask\<close>

text \<open>
  C6. \<^verbatim>\<open>set_value\<close> called with an integer below 0 or above 7 raises \<^verbatim>\<open>ValueError\<close>
  and leaves the hardware state exactly as it was: no value file is written (the log of
  writes is the same), so every relay reads what it read before.
\<close>

theorem set_value_out_of_range:
  "v < 0 \<or> 7 < v \<Longrightarrow> set_value c v st = (Inl ValueError, st)"
  by (auto simp: set_value_def)

theorem set_value_out_of_range_witness:
  "((8::int) < 0 \<or> 7 < (8::int))
   \<and> set_value example_controller 8 all_off = (Inl ValueError, all_off)
   \<and> ((-1::int) < 0 \<or> 7 < (-1::int))
   \<and> set_value example_controller (-1) all_off = (Inl ValueError, all_off)"
  using set_value_out_of_range[of 8 example_controller all_off]
    set_value_out_of_range[of "-1" example_controller all_off]
  by simp

text \<open>
  C2. For a bank of three relays on distinct channels whose value files can be opened,
  and every bitmask \<open>m\<close> from 0 to 7, \<^verbatim>\<open>set_value(m)\<close> succeeds, and reading the three
  relays afterwards gives ON for relay \<open>i\<close> exactly when bit \<open>i\<close> of \<open>m\<close> is set; putting
  the three bits back together gives \<open>m\<close>.
\<close>

theorem set_value_round_trip:
  assumes "relays c = [r0, r1, r2]"
    and "distinct [relay_channel r0, relay_channel r1, relay_channel r2]"
    and "value_file st (relay_channel r0) \<noteq> None"
    and "value_file st (relay_channel r1) \<noteq> None"
    and "value_file st (relay_channel r2) \<noteq> None"
    and "0 \<le> m" and "m \<le> 7"
  shows "\<exists>st' v0 v1 v2. set_value c m st = (Inr (), st')
           \<and> value_get (relays c ! 0) st' = Inr v0
           \<and> value_get (relays c ! 1) st' = Inr v1
           \<and> value_get (relays c ! 2) st' = Inr v2
           \<and> (v0 = ON \<longleftrightarrow> bit m 0) \<and> (v1 = ON \<longleftrightarrow> bit m 1) \<and> (v2 = ON \<longleftrightarrow> bit m 2)
           \<and> (if v0 = ON then 1 else 0) + 2 * (if v1 = ON then 1 else 0)
               + 4 * (if v2 = ON then 1 else 0) = m"
proof -
  from set_value_reads[OF assms] obtain st' where s: "set_value c m st = (Inr (), st')"
    and g: "value_get r0 st' = Inr (if bit m 0 then ON else OFF)"
       "value_get r1 st' = Inr (if bit m 1 then ON else OFF)"
       "value_get r2 st' = Inr (if bit m 2 then ON else OFF)"
    by blast
  let ?v0 = "if bit m 0 then ON else OFF"
  let ?v1 = "if bit m 1 then ON else OFF"
  let ?v2 = "if bit m 2 then ON else OFF"
  have b: "(?v0 = ON) = bit m 0" "(?v1 = ON) = bit m 1" "(?v2 = ON) = bit m 2"
    by simp_all
  have sum: "(if ?v0 = ON then 1 else 0) + 2 * (if ?v1 = ON then 1 else 0)
      + 4 * (if ?v2 = ON then 1 else 0) = m"
    unfolding b using bits_of_bitmask(4)[OF assms(6,7)] .
  have n: "relays c ! 0 = r0" "relays c ! 1 = r1" "relays c ! 2 = r2"
    by (simp_all add: assms(1))
  show ?thesis
    unfolding n
    by (intro exI[of _ st'] exI[of _ ?v0] exI[of _ ?v1] exI[of _ ?v2] conjI s g b sum)
qed

theorem set_value_round_trip_witness:
  "\<exists>st' v0 v1 v2. set_value example_controller 5 all_off = (Inr (), st')
      \<and> value_get (relays example_controller ! 0) st' = Inr v0
      \<and> value_get (relays example_controller ! 1) st' = Inr v1
      \<and> value_get (relays example_controller ! 2) st' = Inr v2
      \<and> (v0 = ON \<longleftrightarrow> bit (5::int) 0) \<and> (v1 = ON \<longleftrightarrow> bit (5::int) 1)
      \<and> (v2 = ON \<longleftrightarrow> bit (5::int) 2)
      \<and> (if v0 = ON then 1 else 0) + 2 * (if v1 = ON then 1 else 0)
               + 4 * (if v2 = ON then 1 else 0) = (5::int)"
proof -
  have h: "relays example_controller = [Relay 26, Relay 20, Relay 21]"
    "distinct [relay_channel (Relay 26), relay_channel (Relay 20), relay_channel (Relay 21)]"
    "value_file all_off (relay_channel (Relay 26)) \<noteq> None"
    "value_file all_off (relay_channel (Relay 20)) \<noteq> None"
    "value_file all_off (relay_channel (Relay 21)) \<noteq> None"
    "0 \<le> (5::int)" "(5::int) \<le> 7"
    by (simp_all add: example_controller_def all_off_def pin_defs)
  show ?thesis by (rule set_value_round_trip[OF h])
qed

section \<open>Decoding the buffer\<close>

lemma decode_tokens_None_iff:
  "decode_tokens ts = None \<longleftrightarrow> (\<exists>t\<in>set ts. py_int_hex t = None)"
  by (induction ts) (auto split: option.splits)









lemma midi_hex_Cons_nonempty: "midi_hex buf = Some (x # xs) \<Longrightarrow> buf \<noteq> []"
  by (auto simp: midi_hex_def split_ws_def)




section \<open>Routing a decoded frame\<close>

text \<open>
  C1. Whenever the buffer decodes to a frame \<open>status # data\<close> whose status has the note-on
  type, the callback does nothing (no write, no error) if the frame's channel
  \<open>(status AND 0x0F) + 1\<close> is not the configured one or if there is no data byte; else it
  is exactly \<^verbatim>\<open>set_value\<close> of the table entry of the first data byte, or of the base value
  when the table has no entry.
\<close>

theorem callback_note_on:
  assumes "midi_hex buf = Some (status # data)"
    and "status AND 0xF0 = 0x90"
  shows "callback c buf st =
     (if (status AND 0x0F) + 1 \<noteq> channel c then (Inr (), st)
      else if data = [] then (Inr (), st)
      else set_value c (case NOTE_TO_VALUE (hd data) of None \<Rightarrow> base_value c | Some m \<Rightarrow> m) st)"
  using assms midi_hex_Cons_nonempty[OF assms(1)]
  by (cases data)
     (simp_all add: callback_def set_note_on_def CONTROL_MASK_def CONTROL_NOTE_OFF_def
        CONTROL_NOTE_ON_def CHANNEL_MASK_def)

theorem callback_note_on_witness:
  "midi_hex ''93 3C'' = Some [0x93, 60] \<and> (0x93::int) AND 0xF0 = 0x90
   \<and> callback example_controller ''93 3C'' all_off = set_value example_controller 1 all_off
   \<and> midi_hex ''93 63'' = Some [0x93, 99]
   \<and> callback (example_controller\<lparr>base_value := 2\<rparr>) ''93 63'' all_off
        = set_value (example_controller\<lparr>base_value := 2\<rparr>) 2 all_off
   \<and> midi_hex ''94 3C'' = Some [0x94, 60] \<and> (0x94::int) AND 0xF0 = 0x90
   \<and> callback example_controller ''94 3C'' all_off = (Inr (), all_off)
   \<and> midi_hex ''93'' = Some [0x93]
   \<and> callback example_controller ''93'' all_off = (Inr (), all_off)"
proof -
  have m: "midi_hex ''93 3C'' = Some [0x93, 60]" "midi_hex ''93 63'' = Some [0x93, 99]"
    "midi_hex ''94 3C'' = Some [0x94, 60]" "midi_hex ''93'' = Some [0x93]"
    by (simp_all add: eval_defs)
  have a: "(0x93::int) AND 0xF0 = 0x90" "(0x94::int) AND 0xF0 = 0x90"
    by simp_all
  show ?thesis
    using callback_note_on[OF m(1) a(1), of example_controller all_off]
      callback_note_on[OF m(2) a(1), of "example_controller\<lparr>base_value := 2\<rparr>" all_off]
      callback_note_on[OF m(3) a(2), of example_controller all_off]
      callback_note_on[OF m(4) a(1), of example_controller all_off]
      m a
    by (simp add: example_controller_def NOTE_TO_VALUE_def)
qed

lemma callback_note_off:
  assumes "midi_hex buf = Some (status # data)"
    and "status AND 0xF0 = 0x80"
  shows "callback c buf st = (Inl AttributeError, st)"
  using assms midi_hex_Cons_nonempty[OF assms(1)]
  by (simp add: callback_def CONTROL_MASK_def CONTROL_NOTE_OFF_def)

text \<open>
  C3. On a note-off frame the callback writes no relay, but it raises
  \<^verbatim>\<open>AttributeError\<close> instead of returning. On the stream of a note-off followed by a note-on for the listened
  channel, \<^verbatim>\<open>run_forever\<close> ends with that error as soon as the status byte \<^verbatim>\<open>83\<close> is
  complete; the only writes are those of the base value, and the note-on is never seen.
\<close>

theorem note_off_raises:
  "callback example_controller ''83'' all_off = (Inl AttributeError, all_off)
   \<and> fst (run_forever example_controller
            (CHR 0x0A # ''83 3C 00'' @ CHR 0x0A # ''93 3C 7F'') 0 all_off) = Inl AttributeError
   \<and> writes (snd (run_forever example_controller
            (CHR 0x0A # ''83 3C 00'' @ CHR 0x0A # ''93 3C 7F'') 0 all_off))
       = [(26, ''1''), (20, ''1''), (21, ''1'')]"
  by (simp add: run_forever_def after_readline_def callback_def set_value_def assign_relay_def
      and_then_def value_set_def set_raw_value_def value_to_raw_value_def ON_VALUE_def OFF_VALUE_def
      example_controller_def all_off_def pin_defs eval_defs)

section \<open>The control loop\<close>

text \<open>
  C4. At any point of the loop, a newline continues with the empty buffer and the same
  hardware state, whatever the buffer held, so what follows the newline is processed
  the same as from an empty buffer; and a buffer with a token that \<^verbatim>\<open>int\<close> rejects makes the
  callback return normally without touching the hardware.
\<close>

theorem newline_resets_buffer:
  "loop c (CHR 0x0A # rest) k buffer st = loop c rest k [] st
   \<and> loop c (CHR 0x0A # rest) k buffer st = loop c (CHR 0x0A # rest) k [] st
   \<and> ((\<exists>t\<in>set (split_ws buf). py_int_hex t = None) \<longrightarrow> callback c buf st = (Inr (), st))"
  by (auto simp: callback_def midi_hex_def decode_tokens_None_iff[symmetric])

theorem newline_resets_buffer_witness:
  "split_ws ''93 3G'' = [''93'', ''3G''] \<and> py_int_hex ''3G'' = None
   \<and> callback example_controller ''93 3G'' all_off = (Inr (), all_off)
   \<and> loop example_controller (CHR 0x0A # ''93 3C'') 0 ''93 3G'' all_off
       = loop example_controller ''93 3C'' 0 [] all_off"
  using newline_resets_buffer[of example_controller "''93 3C''" 0 "''93 3G''" all_off "''93 3G''"]
  by (simp add: eval_defs)

lemma value_set_prefix: "prefix (writes st) (writes (snd (value_set r v st)))"
  by (auto simp: value_set_def set_raw_value_def split: option.splits)

lemma assign_relay_prefix: "prefix (writes st) (writes (snd (assign_relay c i v st)))"
  by (simp add: assign_relay_def value_set_prefix)

lemma and_then_prefix:
  assumes "prefix (writes st) (writes (snd r))"
    and "\<And>s. prefix (writes s) (writes (snd (f s)))"
  shows "prefix (writes st) (writes (snd (and_then r f)))"
proof (cases r)
  case (Pair a s)
  with assms(1) assms(2)[of s] show ?thesis
    by (cases a) (auto simp: and_then_def intro: prefix_order.trans)
qed

lemma set_value_prefix: "prefix (writes st) (writes (snd (set_value c v st)))"
  unfolding set_value_def
  by (auto intro!: and_then_prefix assign_relay_prefix)

lemma set_note_on_prefix: "prefix (writes st) (writes (snd (set_note_on c chan vals st)))"
  by (auto simp: set_note_on_def set_value_prefix split: list.splits)

lemma callback_prefix: "prefix (writes st) (writes (snd (callback c buf st)))"
  by (auto simp: callback_def set_note_on_prefix split: option.splits list.splits)

lemma loop_prefix: "prefix (writes st) (writes (snd (loop c inp k buf st)))"
proof (induction c inp k buf st rule: loop.induct)
  case (3 c next_byte rest k buffer st)
  show ?case
  proof (cases "next_byte = CHR 0x0A")
    case True
    with 3 show ?thesis by simp
  next
    case False
    obtain a s where cb: "callback c (buffer @ [next_byte]) st = (a, s)"
      by (cases "callback c (buffer @ [next_byte]) st")
    have p: "prefix (writes st) (writes s)"
      using callback_prefix[of st c "buffer @ [next_byte]"] cb by simp
    show ?thesis
    proof (cases a)
      case (Inl e)
      with False cb p show ?thesis by simp
    next
      case (Inr u)
      have "prefix (writes s) (writes (snd (loop c rest k (buffer @ [next_byte]) s)))"
        using 3(2)[OF False cb[symmetric] Inr] .
      with False cb Inr p show ?thesis by (auto intro: prefix_order.trans)
    qed
  qed
qed simp_all

text \<open>
  C7. Whatever the configuration, the input and the hardware state, the writes of
  \<^verbatim>\<open>set_value(base_value)\<close> come first in everything \<^verbatim>\<open>run_forever\<close> writes. When the base
  value is a bitmask and the three value files can be opened, the relays show the base
  value in the state from which the first character is processed.
\<close>

theorem run_forever_applies_base_first:
  "prefix (writes (snd (set_value c (base_value c) st))) (writes (snd (run_forever c inp k st)))
   \<and> (relays c = [r0, r1, r2]
        \<and> distinct [relay_channel r0, relay_channel r1, relay_channel r2]
        \<and> value_file st (relay_channel r0) \<noteq> None
        \<and> value_file st (relay_channel r1) \<noteq> None
        \<and> value_file st (relay_channel r2) \<noteq> None
        \<and> 0 \<le> base_value c \<and> base_value c \<le> 7
      \<longrightarrow> (\<exists>s. set_value c (base_value c) st = (Inr (), s)
             \<and> value_get r0 s = Inr (if bit (base_value c) 0 then ON else OFF)
             \<and> value_get r1 s = Inr (if bit (base_value c) 1 then ON else OFF)
             \<and> value_get r2 s = Inr (if bit (base_value c) 2 then ON else OFF)
             \<and> run_forever c inp k st = loop c (after_readline inp) k [] s))"
proof (intro conjI impI)
  obtain a s where sv: "set_value c (base_value c) st = (a, s)"
    by (cases "set_value c (base_value c) st")
  show "prefix (writes (snd (set_value c (base_value c) st)))
          (writes (snd (run_forever c inp k st)))"
    using loop_prefix[of s c "after_readline inp" k "[]"]
    by (cases a) (simp_all add: run_forever_def sv)
next
  assume h: "relays c = [r0, r1, r2]
        \<and> distinct [relay_channel r0, relay_channel r1, relay_channel r2]
        \<and> value_file st (relay_channel r0) \<noteq> None
        \<and> value_file st (relay_channel r1) \<noteq> None
        \<and> value_file st (relay_channel r2) \<noteq> None
        \<and> 0 \<le> base_value c \<and> base_value c \<le> 7"
  then obtain s where s: "set_value c (base_value c) st = (Inr (), s)"
    and g: "value_get r0 s = Inr (if bit (base_value c) 0 then ON else OFF)"
       "value_get r1 s = Inr (if bit (base_value c) 1 then ON else OFF)"
       "value_get r2 s = Inr (if bit (base_value c) 2 then ON else OFF)"
    using set_value_reads[of c r0 r1 r2 st "base_value c"] by blast
  have "run_forever c inp k st = loop c (after_readline inp) k [] s"
    by (simp add: run_forever_def s)
  with s g show "\<exists>s. set_value c (base_value c) st = (Inr (), s)
             \<and> value_get r0 s = Inr (if bit (base_value c) 0 then ON else OFF)
             \<and> value_get r1 s = Inr (if bit (base_value c) 1 then ON else OFF)
             \<and> value_get r2 s = Inr (if bit (base_value c) 2 then ON else OFF)
             \<and> run_forever c inp k st = loop c (after_readline inp) k [] s"
    by blast
qed

theorem run_forever_applies_base_first_witness:
  "prefix (writes (snd (set_value (example_controller\<lparr>base_value := 5\<rparr>) 5 all_off)))
     (writes (snd (run_forever (example_controller\<lparr>base_value := 5\<rparr>) (CHR 0x0A # ''93 3C'') 0 all_off)))
   \<and> (\<exists>s. set_value (example_controller\<lparr>base_value := 5\<rparr>) 5 all_off = (Inr (), s)
         \<and> value_get (Relay 26) s = Inr ON
         \<and> value_get (Relay 20) s = Inr OFF
         \<and> value_get (Relay 21) s = Inr ON
         \<and> run_forever (example_controller\<lparr>base_value := 5\<rparr>) (CHR 0x0A # ''93 3C'') 0 all_off
             = loop (example_controller\<lparr>base_value := 5\<rparr>) ''93 3C'' 0 [] s)"
  using run_forever_applies_base_first[of "example_controller\<lparr>base_value := 5\<rparr>" all_off
      "CHR 0x0A # ''93 3C''" 0 "Relay 26" "Relay 20" "Relay 21"]
  by (simp add: example_controller_def all_off_def pin_defs after_readline_def bit_iff_odd)

lemma after_readline_line:
  "CHR 0x0A \<notin> set pre \<Longrightarrow> after_readline (pre @ CHR 0x0A # rest) = rest"
  unfolding after_readline_def by (induction pre) auto

lemma after_readline_no_newline:
  "CHR 0x0A \<notin> set pre \<Longrightarrow> after_readline pre = []"
  unfolding after_readline_def by (induction pre) auto

text \<open>
  C10. Exactly the first line of the stream is read and dropped before the loop starts:
  for a stream \<open>pre\<close>, newline, \<open>rest\<close> with no newline in \<open>pre\<close>, \<^verbatim>\<open>run_forever\<close> applies the
  base value and then runs the loop on \<open>rest\<close> from the empty buffer, so the characters of
  \<open>pre\<close> never reach the callback and have no influence on the result; a stream without
  any newline is consumed whole and the loop sees only the end of the stream.
\<close>

theorem first_line_discarded:
  assumes "CHR 0x0A \<notin> set pre"
  shows "run_forever c (pre @ CHR 0x0A # rest) k st =
           (case set_value c (base_value c) st of
              (Inl e, st') \<Rightarrow> (Inl e, st')
            | (Inr u, st') \<Rightarrow> loop c rest k [] st')
   \<and> run_forever c pre k st =
           (case set_value c (base_value c) st of
              (Inl e, st') \<Rightarrow> (Inl e, st')
            | (Inr u, st') \<Rightarrow> loop c [] k [] st')
   \<and> run_forever c (pre @ CHR 0x0A # rest) k st = run_forever c (CHR 0x0A # rest) k st
   \<and> run_forever c pre k st = run_forever c [] k st"
proof -
  have a: "after_readline (pre @ CHR 0x0A # rest) = rest"
    using after_readline_line[OF assms] .
  have b: "after_readline (CHR 0x0A # rest) = rest"
    using after_readline_line[of "[]" rest] by simp
  have c: "after_readline pre = []"
    using after_readline_no_newline[OF assms] .
  have d: "after_readline [] = []"
    using after_readline_no_newline[of "[]"] by simp
  show ?thesis
    unfolding run_forever_def a b c d by simp
qed

theorem first_line_discarded_witness:
  "CHR 0x0A \<notin> set ''93 3C 7F''
   \<and> run_forever example_controller (''93 3C 7F'' @ CHR 0x0A # ''93 3D'') 0 all_off
       = (case set_value example_controller (base_value example_controller) all_off of
            (Inl e, st') \<Rightarrow> (Inl e, st')
          | (Inr u, st') \<Rightarrow> loop example_controller ''93 3D'' 0 [] st')
   \<and> writes (snd (run_forever example_controller (''93 3C 7F'' @ CHR 0x0A # ''93 3D'') 0 all_off))
       = [(26, ''1''), (20, ''1''), (21, ''1''), (26, ''1''), (20, ''1''), (21, ''1''),
          (26, ''1''), (20, ''0''), (21, ''1'')]
   \<and> run_forever example_controller ''93 3C 7F'' 0 all_off
       = set_value example_controller 0 all_off"
proof -
  have h: "CHR 0x0A \<notin> set ''93 3C 7F''" by simp
  note t = first_line_discarded[OF h, of example_controller "''93 3D''" 0 all_off]
  have s: "set_value example_controller (base_value example_controller) all_off
        = set_value example_controller 0 all_off"
    by (simp add: example_controller_def)
  have w: "writes (snd (case set_value example_controller (base_value example_controller) all_off of
            (Inl e, st') \<Rightarrow> (Inl e, st')
          | (Inr u, st') \<Rightarrow> loop example_controller ''93 3D'' 0 [] st'))
       = [(26, ''1''), (20, ''1''), (21, ''1''), (26, ''1''), (20, ''1''), (21, ''1''),
          (26, ''1''), (20, ''0''), (21, ''1'')]"
    by (simp add: callback_def set_note_on_def set_value_def assign_relay_def
      and_then_def value_set_def set_raw_value_def value_to_raw_value_def ON_VALUE_def OFF_VALUE_def
      example_controller_def all_off_def pin_defs eval_defs)
  have e: "(case set_value example_controller (base_value example_controller) all_off of
            (Inl e, st') \<Rightarrow> (Inl e, st')
          | (Inr u, st') \<Rightarrow> loop example_controller [] 0 [] st')
        = set_value example_controller 0 all_off"
    unfolding s by (cases "set_value example_controller 0 all_off") (auto split: sum.splits)
  from t have t1: "run_forever example_controller (''93 3C 7F'' @ CHR 0x0A # ''93 3D'') 0 all_off
       = (case set_value example_controller (base_value example_controller) all_off of
            (Inl e, st') \<Rightarrow> (Inl e, st')
          | (Inr u, st') \<Rightarrow> loop example_controller ''93 3D'' 0 [] st')"
    and t2: "run_forever example_controller ''93 3C 7F'' 0 all_off =
           (case set_value example_controller (base_value example_controller) all_off of
              (Inl e, st') \<Rightarrow> (Inl e, st')
            | (Inr u, st') \<Rightarrow> loop example_controller [] 0 [] st')"
    by blast+
  show ?thesis
    using h t1 w t2 e by (simp only: simp_thms)
qed

section \<open>Toggling one relay\<close>

lemma toggle_reads:
  assumes "value_get r st = Inr v"
  shows "\<exists>st'. toggle r st = (Inr (if v = ON then OFF else ON), st')
           \<and> value_get r st' = Inr (if v = ON then OFF else ON)
           \<and> (\<forall>r'. relay_channel r' \<noteq> relay_channel r \<longrightarrow> value_get r' st' = value_get r' st)"
proof -
  from assms have f: "value_file st (relay_channel r) \<noteq> None"
    by (auto simp: value_get_def split: option.splits)
  show ?thesis
    by (simp add: toggle_def assms value_set_ok[OF f])
qed

text \<open>
  C9. In a bank of three relays on distinct channels, toggling relay \<open>i\<close> (for \<open>i\<close> among
  0, 1, 2) whose value reads \<open>v\<close> returns the opposite value, the relay reads that value
  afterwards, and the two other relays read what they read before.
\<close>

theorem toggle_flips_one_output:
  assumes "relays c = [r0, r1, r2]"
    and "distinct (map relay_channel (relays c))"
    and "i < 3"
    and "value_get (relays c ! i) st = Inr v"
  shows "\<exists>st'. toggle (relays c ! i) st = (Inr (if v = ON then OFF else ON), st')
           \<and> value_get (relays c ! i) st' = Inr (if v = ON then OFF else ON)
           \<and> (\<forall>j<3. j \<noteq> i \<longrightarrow> value_get (relays c ! j) st' = value_get (relays c ! j) st)"
proof -
  from toggle_reads[OF assms(4)] obtain st' where
    t: "toggle (relays c ! i) st = (Inr (if v = ON then OFF else ON), st')"
    and g: "value_get (relays c ! i) st' = Inr (if v = ON then OFF else ON)"
    and o: "\<And>r'. relay_channel r' \<noteq> relay_channel (relays c ! i) \<Longrightarrow>
              value_get r' st' = value_get r' st"
    by blast
  have len: "length (relays c) = 3" by (simp add: assms(1))
  have "value_get (relays c ! j) st' = value_get (relays c ! j) st" if "j < 3" "j \<noteq> i" for j
  proof -
    have "map relay_channel (relays c) ! j \<noteq> map relay_channel (relays c) ! i"
      using assms(2,3) that len by (simp add: nth_eq_iff_index_eq del: nth_map)
    then have "relay_channel (relays c ! j) \<noteq> relay_channel (relays c ! i)"
      using assms(3) that len by simp
    then show ?thesis by (rule o)
  qed
  with t g show ?thesis by blast
qed

theorem toggle_flips_one_output_witness:
  "value_get (Relay 20) all_off = Inr OFF
   \<and> fst (toggle (Relay 20) all_off) = Inr ON
   \<and> value_get (Relay 20) (snd (toggle (Relay 20) all_off)) = Inr ON
   \<and> value_get (Relay 26) (snd (toggle (Relay 20) all_off)) = value_get (Relay 26) all_off
   \<and> value_get (Relay 21) (snd (toggle (Relay 20) all_off)) = value_get (Relay 21) all_off"
proof -
  have h: "relays example_controller = [Relay 26, Relay 20, Relay 21]"
    "distinct (map relay_channel (relays example_controller))"
    "(1::nat) < 3"
    "value_get (relays example_controller ! 1) all_off = Inr OFF"
    by (simp_all add: example_controller_def all_off_def pin_defs value_get_def
        raw_value_to_value_def rstrip_def is_space_def ON_VALUE_def OFF_VALUE_def)
  from toggle_flips_one_output[OF h] obtain st' where
    t: "toggle (relays example_controller ! 1) all_off = (Inr ON, st')"
    and g: "value_get (relays example_controller ! 1) st' = Inr ON"
    and o: "\<forall>j<3. j \<noteq> 1 \<longrightarrow> value_get (relays example_controller ! j) st'
                                   = value_get (relays example_controller ! j) all_off"
    by auto
  from o have "value_get (relays example_controller ! 0) st'
                 = value_get (relays example_controller ! 0) all_off"
    and "value_get (relays example_controller ! 2) st'
                 = value_get (relays example_controller ! 2) all_off"
    by simp_all
  with t g h(4) show ?thesis
    by (simp add: h(1))
qed

end
